theory Spec2Isabelle
  imports Complex_Main
begin

section \<open>Strings and the regular expressions of \<open>solution.py\<close>\<close>

text \<open>
  A Python \<open>str\<close> is a sequence of Unicode code points; a code point is a natural
  number here, so that the character classes of the two patterns are the ones Python's
  \<open>re\<close> module uses on \<open>str\<close> patterns. \<open>str\<close> turns a literal into that
  representation.
\<close>

type_synonym pystr = "nat list"

definition str :: "string \<Rightarrow> pystr" where
  "str s = map of_char s"

text \<open>
  The three character classes that occur in the patterns:
  \<^verbatim>\<open>\s\<close> (Unicode white space, as \<open>str.isspace\<close> has it),
  \<^verbatim>\<open>[A-Za-z_]\<close> and \<^verbatim>\<open>[+\-*/]\<close>.
\<close>

datatype cclass = Space | Label | Oper

definition is_space :: "nat \<Rightarrow> bool" where
  "is_space c \<longleftrightarrow>
     (9 \<le> c \<and> c \<le> 13) \<or> (28 \<le> c \<and> c \<le> 32) \<or> c = 133 \<or> c = 160 \<or> c = 5760 \<or>
     (8192 \<le> c \<and> c \<le> 8202) \<or> c = 8232 \<or> c = 8233 \<or> c = 8239 \<or> c = 8287 \<or> c = 12288"

definition is_label_char :: "nat \<Rightarrow> bool" where
  "is_label_char c \<longleftrightarrow> (65 \<le> c \<and> c \<le> 90) \<or> (97 \<le> c \<and> c \<le> 122) \<or> c = 95"

definition is_oper_char :: "nat \<Rightarrow> bool" where
  "is_oper_char c \<longleftrightarrow> c = 43 \<or> c = 45 \<or> c = 42 \<or> c = 47"

fun in_class :: "cclass \<Rightarrow> nat \<Rightarrow> bool" where
  "in_class Space c = is_space c"
| "in_class Label c = is_label_char c"
| "in_class Oper c = is_oper_char c"

text \<open>
  Both patterns are a sequence of pieces: the anchors \<^verbatim>\<open>^\<close> and \<^verbatim>\<open>$\<close>, and a
  character class with a quantifier, inside a capturing group or not.
\<close>

datatype quant = Once | ZeroOrMore | OneOrMore

datatype piece = Bol | Eol | Chars cclass quant | Group cclass quant

fun lo :: "quant \<Rightarrow> nat" where
  "lo Once = 1"
| "lo ZeroOrMore = 0"
| "lo OneOrMore = 1"

fun hi :: "quant \<Rightarrow> nat \<Rightarrow> nat" where
  "hi Once k = min 1 k"
| "hi ZeroOrMore k = k"
| "hi OneOrMore k = k"

text \<open>
  The repetition counts a greedy quantifier tries, longest first, when \<open>k\<close> characters
  of the class are available.
\<close>

definition counts :: "quant \<Rightarrow> nat \<Rightarrow> nat list" where
  "counts q k = rev [lo q ..< Suc (hi q k)]"

fun first_some :: "('a \<Rightarrow> 'b option) \<Rightarrow> 'a list \<Rightarrow> 'b option" where
  "first_some f [] = None"
| "first_some f (x # xs) = (case f x of Some y \<Rightarrow> Some y | None \<Rightarrow> first_some f xs)"

text \<open>
  The backtracking matcher of \<open>re\<close>, for these pieces. \<open>rmatch ps i s gs\<close> matches
  the pieces \<open>ps\<close> against the rest \<open>s\<close> of the subject, \<open>i\<close> characters into it, with
  the groups \<open>gs\<close> captured so far. \<^verbatim>\<open>$\<close> holds at the end and before a final newline;
  \<open>fullmatch\<close> accepts only at the end of the subject, and a failure there makes the
  quantifiers before it give characters back.
\<close>

fun rmatch :: "piece list \<Rightarrow> nat \<Rightarrow> pystr \<Rightarrow> pystr list \<Rightarrow> pystr list option" where
  "rmatch [] i s gs = (if s = [] then Some gs else None)"
| "rmatch (Bol # ps) i s gs = (if i = 0 then rmatch ps i s gs else None)"
| "rmatch (Eol # ps) i s gs = (if s = [] \<or> s = [10] then rmatch ps i s gs else None)"
| "rmatch (Chars c q # ps) i s gs =
     first_some (\<lambda>n. rmatch ps (i + n) (drop n s) gs)
       (counts q (length (takeWhile (in_class c) s)))"
| "rmatch (Group c q # ps) i s gs =
     first_some (\<lambda>n. rmatch ps (i + n) (drop n s) (gs @ [take n s]))
       (counts q (length (takeWhile (in_class c) s)))"

definition fullmatch :: "piece list \<Rightarrow> pystr \<Rightarrow> pystr list option" where
  "fullmatch ps s = rmatch ps 0 s []"

text \<open>\<^verbatim>\<open>LABEL_REGEX = re.compile(r"^[A-Za-z_]+$")\<close>\<close>

definition LABEL_REGEX :: "piece list" where
  "LABEL_REGEX = [Bol, Chars Label OneOrMore, Eol]"

definition is_valid_label :: "pystr \<Rightarrow> bool" where
  "is_valid_label label \<longleftrightarrow> fullmatch LABEL_REGEX label \<noteq> None"

text \<open>
  \<^verbatim>\<open>re.compile(r"^\s*([A-Za-z_]+)\s*([+\-*/])\s*([A-Za-z_]+)\s*$")\<close>;
  \<open>parse_role\<close> returns the tuple of the groups of the match, or \<open>None\<close>.
\<close>

definition pattern :: "piece list" where
  "pattern = [Bol, Chars Space ZeroOrMore, Group Label OneOrMore, Chars Space ZeroOrMore,
              Group Oper Once, Chars Space ZeroOrMore, Group Label OneOrMore,
              Chars Space ZeroOrMore, Eol]"

definition parse_role :: "pystr \<Rightarrow> pystr list option" where
  "parse_role expression = fullmatch pattern expression"

section \<open>Tables, objects and the log\<close>

text \<open>
  A table is the ordered collection of named columns of the data model: a list of pairs
  of a label and the values of the column, in the order of the columns. It is what a
  \<open>DataFrame\<close> holds whose column labels are strings; the row index is left out, so
  \<open>pd.DataFrame([])\<close> is the empty list. A table is well formed when its labels are
  distinct and its columns have one length: only then does \<open>df[col]\<close> give one column.
\<close>

type_synonym 'v table = "(pystr \<times> 'v list) list"

definition columns :: "'v table \<Rightarrow> pystr list" where
  "columns t = map fst t"

definition wf_table :: "'v table \<Rightarrow> bool" where
  "wf_table t \<longleftrightarrow>
     distinct (columns t) \<and> (\<forall>c \<in> set t. \<forall>d \<in> set t. length (snd c) = length (snd d))"

datatype py_exn = KeyError pystr | ValueError | TypeError | ZeroDivisionError

text \<open>\<open>df[col]\<close>: the column under a label, \<open>KeyError\<close> when there is none.\<close>

definition getitem :: "'v table \<Rightarrow> pystr \<Rightarrow> py_exn + 'v list" where
  "getitem t col = (case map_of t col of None \<Rightarrow> Inl (KeyError col) | Some vs \<Rightarrow> Inr vs)"

text \<open>
  \<open>df[col] = vs\<close>: the column under an existing label is replaced where it stands, a
  new label is appended after the last column.
\<close>

fun setitem :: "'v table \<Rightarrow> pystr \<Rightarrow> 'v list \<Rightarrow> 'v table" where
  "setitem [] col vs = [(col, vs)]"
| "setitem ((k, old) # t) col vs =
     (if k = col then (col, vs) # t else (k, old) # setitem t col vs)"

text \<open>
  The arithmetic of the cells belongs to the host, not to \<open>solution.py\<close>: it is a
  parameter, the four operators \<open>+\<close>, \<open>-\<close>, \<open>*\<close> and \<open>/\<close> of Python on two
  cells, each of which returns a cell or raises.
\<close>

record 'v arith =
  py_add :: "'v \<Rightarrow> 'v \<Rightarrow> py_exn + 'v"
  py_sub :: "'v \<Rightarrow> 'v \<Rightarrow> py_exn + 'v"
  py_mul :: "'v \<Rightarrow> 'v \<Rightarrow> py_exn + 'v"
  py_truediv :: "'v \<Rightarrow> 'v \<Rightarrow> py_exn + 'v"

text \<open>
  An operator on two columns works position by position; the first cell that raises
  ends it. Columns of two lengths have no common shape: \<open>ValueError\<close>.
\<close>

fun collect :: "(py_exn + 'v) list \<Rightarrow> py_exn + 'v list" where
  "collect [] = Inr []"
| "collect (r # rs) =
     (case r of
        Inl e \<Rightarrow> Inl e
      | Inr z \<Rightarrow> (case collect rs of Inl e \<Rightarrow> Inl e | Inr zs \<Rightarrow> Inr (z # zs)))"

definition series_op :: "('v \<Rightarrow> 'v \<Rightarrow> py_exn + 'v) \<Rightarrow> 'v list \<Rightarrow> 'v list \<Rightarrow> py_exn + 'v list" where
  "series_op f a b =
     (if length a \<noteq> length b then Inl ValueError else collect (map2 f a b))"

text \<open>
  The cells of the examples are numbers. They are rationals with exact operations here:
  the rounding of binary floating point is left out, so \<open>0.4\<close> is \<open>2/5\<close>, and a
  division by zero raises as it does on Python's own numbers.
\<close>

definition exact_arith :: "rat arith" where
  "exact_arith =
     \<lparr>py_add = (\<lambda>x y. Inr (x + y)),
      py_sub = (\<lambda>x y. Inr (x - y)),
      py_mul = (\<lambda>x y. Inr (x * y)),
      py_truediv = (\<lambda>x y. if y = 0 then Inl ZeroDivisionError else Inr (x / y))\<rparr>"

text \<open>
  The warnings of \<open>add_virtual_column\<close>, one constructor for each message of the
  source, with the values the message shows.
\<close>

datatype warning =
    InvalidNewColumnName pystr
  | InvalidExpressionFormat pystr
  | InvalidOperandLabel pystr
  | ColumnNotFound pystr
  | UnsupportedOperator pystr
  | CalculationError pystr pystr pystr py_exn

text \<open>
  A \<open>DataFrame\<close> is an object: the caller and the function hold references to it.
  The world of a call is the store of the tables, a reference being a position in it,
  and the log written so far.
\<close>

record 'v world =
  heap :: "'v table list"
  log :: "warning list"

definition logger_warning :: "warning \<Rightarrow> 'v world \<Rightarrow> 'v world" where
  "logger_warning m w = w\<lparr>log := log w @ [m]\<rparr>"

text \<open>\<open>pd.DataFrame(...)\<close> makes a new object.\<close>

definition DataFrame :: "'v table \<Rightarrow> 'v world \<Rightarrow> nat \<times> 'v world" where
  "DataFrame t w = (length (heap w), w\<lparr>heap := heap w @ [t]\<rparr>)"

text \<open>\<open>df.copy()\<close>: a new object with the columns of \<open>df\<close>.\<close>

definition copy :: "nat \<Rightarrow> 'v world \<Rightarrow> nat \<times> 'v world" where
  "copy df w = DataFrame (heap w ! df) w"

text \<open>\<open>df[col] = vs\<close> on the object \<open>df\<close> refers to.\<close>

definition setitem_at :: "nat \<Rightarrow> pystr \<Rightarrow> 'v list \<Rightarrow> 'v world \<Rightarrow> 'v world" where
  "setitem_at df col vs w = w\<lparr>heap := (heap w)[df := setitem (heap w ! df) col vs]\<rparr>"

section \<open>\<open>add_virtual_column\<close>\<close>

text \<open>
  \<^verbatim>\<open>operations = {'+': lambda a, b: a + b, '-': ..., '*': ..., '/': lambda a, b: a / b}\<close>
  on columns, and \<open>operations.get(op)\<close>.
\<close>

definition operations ::
  "'v arith \<Rightarrow> (pystr \<times> ('v list \<Rightarrow> 'v list \<Rightarrow> py_exn + 'v list)) list" where
  "operations ar =
     [(str ''+'', \<lambda>a b. series_op (py_add ar) a b),
      (str ''-'', \<lambda>a b. series_op (py_sub ar) a b),
      (str ''*'', \<lambda>a b. series_op (py_mul ar) a b),
      (str ''/'', \<lambda>a b. series_op (py_truediv ar) a b)]"

text \<open>
  The loop over \<open>(left_col, right_col)\<close>: the warning of the first check that fails,
  or \<open>None\<close> when the loop runs to its end.
\<close>

fun check_operands :: "'v table \<Rightarrow> pystr list \<Rightarrow> warning option" where
  "check_operands t [] = None"
| "check_operands t (col # cols) =
     (if \<not> is_valid_label col then Some (InvalidOperandLabel col)
      else if col \<notin> set (columns t) then Some (ColumnNotFound col)
      else check_operands t cols)"

text \<open>\<^verbatim>\<open>logger.warning(...); return pd.DataFrame([])\<close>\<close>

definition reject :: "warning \<Rightarrow> 'v world \<Rightarrow> (py_exn + nat) \<times> 'v world" where
  "reject m w = (case DataFrame [] (logger_warning m w) of (r, w') \<Rightarrow> (Inr r, w'))"

text \<open>
  The function takes the reference \<open>df\<close> and returns a reference, or the exception
  that leaves it, and the world after the call. \<open>if not parsed\<close> holds for \<open>None\<close>
  and for the empty tuple; unpacking a tuple that has not three items raises
  \<open>ValueError\<close>. The body of \<open>try\<close> reads the two columns and applies \<open>func\<close>:
  every exception of it is caught.
\<close>

definition add_virtual_column ::
  "'v arith \<Rightarrow> nat \<Rightarrow> pystr \<Rightarrow> pystr \<Rightarrow> 'v world \<Rightarrow> (py_exn + nat) \<times> 'v world" where
  "add_virtual_column ar df role new_column w =
     (if \<not> is_valid_label new_column then reject (InvalidNewColumnName new_column) w
      else
        (case parse_role role of
           None \<Rightarrow> reject (InvalidExpressionFormat role) w
         | Some [] \<Rightarrow> reject (InvalidExpressionFormat role) w
         | Some [left_col, op, right_col] \<Rightarrow>
             (case check_operands (heap w ! df) [left_col, right_col] of
                Some m \<Rightarrow> reject m w
              | None \<Rightarrow>
                  (case map_of (operations ar) op of
                     None \<Rightarrow> reject (UnsupportedOperator op) w
                   | Some func \<Rightarrow>
                       (case (case getitem (heap w ! df) left_col of
                                Inl e \<Rightarrow> Inl e
                              | Inr a \<Rightarrow>
                                  (case getitem (heap w ! df) right_col of
                                     Inl e \<Rightarrow> Inl e
                                   | Inr b \<Rightarrow> func a b)) of
                          Inl e \<Rightarrow> reject (CalculationError left_col op right_col e) w
                        | Inr result \<Rightarrow>
                            (case copy df w of
                               (df_copy, w') \<Rightarrow>
                                 (Inr df_copy, setitem_at df_copy new_column result w')))))
         | Some _ \<Rightarrow> (Inl ValueError, w)))"

text \<open>The table behind the reference a call returned, if it returned one.\<close>

definition returned :: "(py_exn + nat) \<times> 'v world \<Rightarrow> 'v table option" where
  "returned out =
     (case fst out of
        Inl e \<Rightarrow> None
      | Inr r \<Rightarrow> if r < length (heap (snd out)) then Some (heap (snd out) ! r) else None)"

text \<open>\<open>df\<close> refers to a table of the data model.\<close>

definition is_table :: "'v world \<Rightarrow> nat \<Rightarrow> bool" where
  "is_table w df \<longleftrightarrow> df < length (heap w) \<and> wf_table (heap w ! df)"

text \<open>The table and the world of the examples: \<open>{a:[1,2,3], b:[4,5,6]}\<close>, an empty log.\<close>

definition example_table :: "rat table" where
  "example_table = [(str ''a'', [1, 2, 3]), (str ''b'', [4, 5, 6])]"

definition example_world :: "rat world" where
  "example_world = \<lparr>heap = [example_table], log = []\<rparr>"

section \<open>The matcher\<close>

lemma first_some_SomeD: "first_some f xs = Some y \<Longrightarrow> \<exists>n. n \<in> set xs \<and> f n = Some y"
  by (induction xs) (auto split: option.splits)

lemma set_counts: "n \<in> set (counts q k) \<longleftrightarrow> lo q \<le> n \<and> n \<le> hi q k"
  by (auto simp: counts_def)

lemma counts_greedy: "lo q \<le> hi q k \<Longrightarrow> counts q k = hi q k # rev [lo q ..< hi q k]"
  by (simp add: counts_def)

lemma hi_le: "hi q k \<le> k"
  by (cases q) auto

lemma takeWhile_maximal:
  "list_all P u \<Longrightarrow> v = [] \<or> \<not> P (hd v) \<Longrightarrow> takeWhile P (u @ v) = u"
  by (induction u) (cases v; auto)+

lemma take_takeWhile_all: "n \<le> length (takeWhile P s) \<Longrightarrow> list_all P (take n s)"
proof (induction s arbitrary: n)
  case Nil
  then show ?case by simp
next
  case (Cons x xs)
  then show ?case by (cases n) (auto split: if_splits)
qed

lemma in_class_simps:
  "in_class Space = is_space" "in_class Label = is_label_char" "in_class Oper = is_oper_char"
  by (rule ext, simp)+

text \<open>A quantified piece that matched took a run of its class and left the rest to the
  pieces after it.\<close>

lemma rmatch_Chars_SomeD:
  assumes "rmatch (Chars c q # ps) i s gs = Some y"
  shows "\<exists>u v. s = u @ v \<and> list_all (in_class c) u \<and> lo q \<le> length u \<and>
           (q \<noteq> ZeroOrMore \<longrightarrow> u \<noteq> []) \<and> (q = Once \<longrightarrow> length u = 1) \<and>
           rmatch ps (i + length u) v gs = Some y"
proof -
  let ?k = "length (takeWhile (in_class c) s)"
  from assms obtain n where n: "n \<in> set (counts q ?k)"
    and m: "rmatch ps (i + n) (drop n s) gs = Some y"
    by (auto dest: first_some_SomeD)
  from n have b: "lo q \<le> n" "n \<le> hi q ?k" by (simp_all add: set_counts)
  with hi_le [of q ?k] have nk: "n \<le> ?k" by simp
  then have nl: "n \<le> length s" using length_takeWhile_le [of "in_class c" s] by simp
  have "s = take n s @ drop n s" by simp
  moreover have "list_all (in_class c) (take n s)" using nk by (rule take_takeWhile_all)
  moreover have "length (take n s) = n" using nl by simp
  moreover have "q = Once \<longrightarrow> n = 1" using b by (cases q) auto
  moreover have "q \<noteq> ZeroOrMore \<longrightarrow> take n s \<noteq> []" using b nl by (cases q) auto
  ultimately show ?thesis using b m by metis
qed

lemma rmatch_Group_SomeD:
  assumes "rmatch (Group c q # ps) i s gs = Some y"
  shows "\<exists>u v. s = u @ v \<and> list_all (in_class c) u \<and> lo q \<le> length u \<and>
           (q \<noteq> ZeroOrMore \<longrightarrow> u \<noteq> []) \<and> (q = Once \<longrightarrow> length u = 1) \<and>
           rmatch ps (i + length u) v (gs @ [u]) = Some y"
proof -
  let ?k = "length (takeWhile (in_class c) s)"
  from assms obtain n where n: "n \<in> set (counts q ?k)"
    and m: "rmatch ps (i + n) (drop n s) (gs @ [take n s]) = Some y"
    by (auto dest: first_some_SomeD)
  from n have b: "lo q \<le> n" "n \<le> hi q ?k" by (simp_all add: set_counts)
  with hi_le [of q ?k] have nk: "n \<le> ?k" by simp
  then have nl: "n \<le> length s" using length_takeWhile_le [of "in_class c" s] by simp
  have "s = take n s @ drop n s" by simp
  moreover have "list_all (in_class c) (take n s)" using nk by (rule take_takeWhile_all)
  moreover have "length (take n s) = n" using nl by simp
  moreover have "q = Once \<longrightarrow> n = 1" using b by (cases q) auto
  moreover have "q \<noteq> ZeroOrMore \<longrightarrow> take n s \<noteq> []" using b nl by (cases q) auto
  ultimately show ?thesis using b m by metis
qed

text \<open>The longest run is tried first: when the pieces after it match what it leaves,
  that is the match.\<close>

lemma rmatch_Chars_greedy:
  assumes "list_all (in_class c) u" and "v = [] \<or> \<not> in_class c (hd v)"
    and "lo q \<le> length u" and "hi q (length u) = length u"
    and "rmatch ps (i + length u) v gs = Some y"
  shows "rmatch (Chars c q # ps) i (u @ v) gs = Some y"
proof -
  have k: "takeWhile (in_class c) (u @ v) = u" using assms(1,2) by (rule takeWhile_maximal)
  have "counts q (length u) = length u # rev [lo q ..< length u]"
    using counts_greedy [of q "length u"] assms(3,4) by simp
  then show ?thesis using assms(5) by (simp add: k)
qed

lemma rmatch_Group_greedy:
  assumes "list_all (in_class c) u" and "v = [] \<or> \<not> in_class c (hd v)"
    and "lo q \<le> length u" and "hi q (length u) = length u"
    and "rmatch ps (i + length u) v (gs @ [u]) = Some y"
  shows "rmatch (Group c q # ps) i (u @ v) gs = Some y"
proof -
  have k: "takeWhile (in_class c) (u @ v) = u" using assms(1,2) by (rule takeWhile_maximal)
  have "counts q (length u) = length u # rev [lo q ..< length u]"
    using counts_greedy [of q "length u"] assms(3,4) by simp
  then show ?thesis using assms(5) by (simp add: k)
qed

lemma class_disjoint:
  "is_label_char c \<Longrightarrow> \<not> is_space c"
  "is_oper_char c \<Longrightarrow> \<not> is_space c"
  "is_oper_char c \<Longrightarrow> \<not> is_label_char c"
  by (auto simp: is_space_def is_label_char_def is_oper_char_def)

lemma is_valid_label_iff: "is_valid_label s \<longleftrightarrow> s \<noteq> [] \<and> list_all is_label_char s"
proof
  assume "is_valid_label s"
  then obtain y where "rmatch [Chars Label OneOrMore, Eol] 0 s [] = Some y"
    by (auto simp: is_valid_label_def fullmatch_def LABEL_REGEX_def)
  from rmatch_Chars_SomeD [OF this] obtain u v where
    "s = u @ v" "list_all (in_class Label) u" "lo OneOrMore \<le> length u"
    "rmatch [Eol] (0 + length u) v [] = Some y" by blast
  then show "s \<noteq> [] \<and> list_all is_label_char s"
    by (auto simp: in_class_simps split: if_splits)
next
  assume a: "s \<noteq> [] \<and> list_all is_label_char s"
  have "rmatch (Chars Label OneOrMore # [Eol]) 0 (s @ []) [] = Some []"
    using a by (intro rmatch_Chars_greedy) (auto simp: in_class_simps Suc_le_eq)
  then show "is_valid_label s"
    by (simp add: is_valid_label_def fullmatch_def LABEL_REGEX_def)
qed

text \<open>What \<open>parse_role\<close> accepts, in both directions.\<close>

lemma parse_role_SomeD:
  assumes "parse_role s = Some gs"
  shows "\<exists>w1 l w2 c w3 r w4. s = w1 @ l @ w2 @ [c] @ w3 @ r @ w4 \<and>
           list_all is_space w1 \<and> list_all is_space w2 \<and> list_all is_space w3 \<and>
           list_all is_space w4 \<and> l \<noteq> [] \<and> list_all is_label_char l \<and> is_oper_char c \<and>
           r \<noteq> [] \<and> list_all is_label_char r \<and> gs = [l, [c], r]"
proof -
  from assms have "rmatch pattern 0 s [] = Some gs"
    by (simp only: parse_role_def fullmatch_def)
  then have m0: "rmatch (Chars Space ZeroOrMore # Group Label OneOrMore # Chars Space ZeroOrMore #
      Group Oper Once # Chars Space ZeroOrMore # Group Label OneOrMore #
      Chars Space ZeroOrMore # [Eol]) 0 s [] = Some gs"
    unfolding pattern_def by (simp only: rmatch.simps(2) if_True simp_thms)
  from rmatch_Chars_SomeD [OF m0] obtain w1 s1 and i1 :: nat where
    s1: "s = w1 @ s1" "list_all is_space w1" and
    m1: "rmatch (Group Label OneOrMore # Chars Space ZeroOrMore #
      Group Oper Once # Chars Space ZeroOrMore # Group Label OneOrMore #
      Chars Space ZeroOrMore # [Eol]) i1 s1 [] = Some gs"
    by (auto simp: in_class_simps simp del: rmatch.simps)
  from rmatch_Group_SomeD [OF m1] obtain l s2 and i2 :: nat where
    s2: "s1 = l @ s2" "list_all is_label_char l" "l \<noteq> []" and
    m2: "rmatch (Chars Space ZeroOrMore #
      Group Oper Once # Chars Space ZeroOrMore # Group Label OneOrMore #
      Chars Space ZeroOrMore # [Eol]) i2 s2 [l] = Some gs"
    by (auto simp: in_class_simps simp del: rmatch.simps)
  from rmatch_Chars_SomeD [OF m2] obtain w2 s3 and i3 :: nat where
    s3: "s2 = w2 @ s3" "list_all is_space w2" and
    m3: "rmatch (Group Oper Once # Chars Space ZeroOrMore # Group Label OneOrMore #
      Chars Space ZeroOrMore # [Eol]) i3 s3 [l] = Some gs"
    by (auto simp: in_class_simps simp del: rmatch.simps)
  from rmatch_Group_SomeD [OF m3] obtain g s4 and i4 :: nat where
    s4: "s3 = g @ s4" "list_all is_oper_char g" "length g = 1" and
    m4: "rmatch (Chars Space ZeroOrMore # Group Label OneOrMore #
      Chars Space ZeroOrMore # [Eol]) i4 s4 [l, g] = Some gs"
    by (auto simp: in_class_simps simp del: rmatch.simps)
  from s4(2,3) obtain c where g: "g = [c]" "is_oper_char c"
    by (cases g) auto
  from rmatch_Chars_SomeD [OF m4] obtain w3 s5 and i5 :: nat where
    s5: "s4 = w3 @ s5" "list_all is_space w3" and
    m5: "rmatch (Group Label OneOrMore # Chars Space ZeroOrMore # [Eol]) i5 s5 [l, g] = Some gs"
    by (auto simp: in_class_simps simp del: rmatch.simps)
  from rmatch_Group_SomeD [OF m5] obtain r s6 and i6 :: nat where
    s6: "s5 = r @ s6" "list_all is_label_char r" "r \<noteq> []" and
    m6: "rmatch (Chars Space ZeroOrMore # [Eol]) i6 s6 [l, g, r] = Some gs"
    by (auto simp: in_class_simps simp del: rmatch.simps)
  from rmatch_Chars_SomeD [OF m6] obtain w4 s7 and i7 :: nat where
    s7: "s6 = w4 @ s7" "list_all is_space w4" and
    m7: "rmatch [Eol] i7 s7 [l, g, r] = Some gs"
    by (auto simp: in_class_simps simp del: rmatch.simps)
  from m7 have e: "s7 = []" "gs = [l, g, r]"
    by (auto split: if_splits)
  have "s = w1 @ l @ w2 @ [c] @ w3 @ r @ w4"
    using s1 s2 s3 s4 s5 s6 s7 e g by simp
  then show ?thesis
    using s1 s2 s3 s4 s5 s6 s7 e g by blast
qed

lemma parse_role_SomeI:
  assumes w: "list_all is_space w1" "list_all is_space w2" "list_all is_space w3"
      "list_all is_space w4"
    and l: "l \<noteq> []" "list_all is_label_char l"
    and c: "is_oper_char c"
    and r: "r \<noteq> []" "list_all is_label_char r"
  shows "parse_role (w1 @ l @ w2 @ [c] @ w3 @ r @ w4) = Some [l, [c], r]"
proof -
  let ?R = "Some [l, [c], r]"
  let ?p6 = "[Eol]"
  let ?p5 = "Chars Space ZeroOrMore # ?p6"
  let ?p4 = "Group Label OneOrMore # ?p5"
  let ?p3 = "Chars Space ZeroOrMore # ?p4"
  let ?p2 = "Group Oper Once # ?p3"
  let ?p1 = "Chars Space ZeroOrMore # ?p2"
  let ?p0 = "Group Label OneOrMore # ?p1"
  obtain r0 r' where r0: "r = r0 # r'" "is_label_char r0"
    using r by (cases r) auto
  obtain l0 l' where l0: "l = l0 # l'" "is_label_char l0"
    using l by (cases l) auto
  have sl: "\<And>x. is_space x \<or> is_label_char x \<Longrightarrow> \<not> is_oper_char x"
    and ls: "\<And>x. is_space x \<or> is_oper_char x \<Longrightarrow> \<not> is_label_char x"
    using class_disjoint by blast+
  have m7: "rmatch ?p6 i [] [l, [c], r] = ?R" for i
    by simp
  have m6: "rmatch ?p5 i (w4 @ []) [l, [c], r] = ?R" for i
    by (rule rmatch_Chars_greedy [OF _ _ _ _ m7]) (simp_all add: in_class_simps w)
  have b5: "w4 = [] \<or> \<not> in_class Label (hd w4)"
    using w(4) ls by (cases w4) auto
  have m5: "rmatch ?p4 i (r @ w4) [l, [c]] = ?R" for i
    using rmatch_Group_greedy [OF _ b5 _ _, of r OneOrMore ?p5 i "[l, [c]]" "[l, [c], r]"]
      m6 [of "i + length r"] r
    by (simp add: in_class_simps Suc_le_eq del: rmatch.simps)
  have b4: "r @ w4 = [] \<or> \<not> in_class Space (hd (r @ w4))"
    using r0 class_disjoint(1) by simp
  have m4: "rmatch ?p3 i (w3 @ r @ w4) [l, [c]] = ?R" for i
    using rmatch_Chars_greedy [OF _ b4 _ _, of w3 ZeroOrMore ?p4 i "[l, [c]]" "[l, [c], r]"]
      m5 [of "i + length w3"] w
    by (simp add: in_class_simps del: rmatch.simps)
  have "is_space (hd (w3 @ r0 # r' @ w4)) \<or> is_label_char (hd (w3 @ r0 # r' @ w4))"
    using w(3) r0(2) by (cases w3) auto
  then have b3: "w3 @ r @ w4 = [] \<or> \<not> in_class Oper (hd (w3 @ r @ w4))"
    using sl r0(1) by simp
  have m3: "rmatch ?p2 i ([c] @ w3 @ r @ w4) [l] = ?R" for i
    using rmatch_Group_greedy [OF _ b3 _ _, of "[c]" Once ?p3 i "[l]" "[l, [c], r]"]
      m4 [of "i + length [c]"] c
    by (simp add: in_class_simps del: rmatch.simps)
  have b2: "[c] @ w3 @ r @ w4 = [] \<or> \<not> in_class Space (hd ([c] @ w3 @ r @ w4))"
    using c class_disjoint(2) by simp
  have m2: "rmatch ?p1 i (w2 @ [c] @ w3 @ r @ w4) [l] = ?R" for i
    using rmatch_Chars_greedy [OF _ b2 _ _, of w2 ZeroOrMore ?p2 i "[l]" "[l, [c], r]"]
      m3 [of "i + length w2"] w
    by (simp add: in_class_simps del: rmatch.simps)
  have "is_space (hd (w2 @ c # w3 @ r @ w4)) \<or> is_oper_char (hd (w2 @ c # w3 @ r @ w4))"
    using w(2) c by (cases w2) auto
  then have b1: "w2 @ [c] @ w3 @ r @ w4 = [] \<or> \<not> in_class Label (hd (w2 @ [c] @ w3 @ r @ w4))"
    using ls by simp
  have m1: "rmatch ?p0 i (l @ w2 @ [c] @ w3 @ r @ w4) [] = ?R" for i
    using rmatch_Group_greedy [OF _ b1 _ _, of l OneOrMore ?p1 i "[]" "[l, [c], r]"]
      m2 [of "i + length l"] l
    by (simp add: in_class_simps Suc_le_eq del: rmatch.simps)
  have b0: "l @ w2 @ [c] @ w3 @ r @ w4 = [] \<or>
      \<not> in_class Space (hd (l @ w2 @ [c] @ w3 @ r @ w4))"
    using l0 class_disjoint(1) by simp
  have m0: "rmatch (Chars Space ZeroOrMore # ?p0) 0 (w1 @ l @ w2 @ [c] @ w3 @ r @ w4) [] = ?R"
    using rmatch_Chars_greedy [OF _ b0 _ _, of w1 ZeroOrMore ?p0 0 "[]" "[l, [c], r]"]
      m1 [of "0 + length w1"] w
    by (simp add: in_class_simps del: rmatch.simps)
  have "rmatch pattern 0 (w1 @ l @ w2 @ [c] @ w3 @ r @ w4) [] = ?R"
    unfolding pattern_def using m0 by (simp only: rmatch.simps(2) if_True simp_thms)
  then show ?thesis
    by (simp only: parse_role_def fullmatch_def)
qed

lemma oper_strings:
  "(\<exists>c. op = [c] \<and> is_oper_char c) \<longleftrightarrow> op \<in> {str ''+'', str ''-'', str ''*'', str ''/''}"
  by (auto simp: is_oper_char_def str_def)

lemma is_label_char_alphabet:
  "is_label_char c \<longleftrightarrow>
     c \<in> set (str ''ABCDEFGHIJKLMNOPQRSTUVWXYZabcdefghijklmnopqrstuvwxyz_'')"
proof
  assume "is_label_char c"
  then show "c \<in> set (str ''ABCDEFGHIJKLMNOPQRSTUVWXYZabcdefghijklmnopqrstuvwxyz_'')"
    unfolding is_label_char_def str_def by simp arith
next
  assume "c \<in> set (str ''ABCDEFGHIJKLMNOPQRSTUVWXYZabcdefghijklmnopqrstuvwxyz_'')"
  then show "is_label_char c"
    unfolding is_label_char_def str_def by auto
qed

lemmas matcher_eval =
  is_valid_label_def parse_role_def fullmatch_def pattern_def LABEL_REGEX_def str_def
  counts_def is_space_def is_label_char_def is_oper_char_def

section \<open>The label validator and the parser\<close>

text \<open>
  C4: \<open>is_valid_label s\<close> holds exactly when \<open>s\<close> is not empty and each of its
  characters is an ASCII letter or the underscore. It is false for the empty string and
  for every string with a character outside that alphabet: a digit, white space, a
  symbol.
\<close>

theorem is_valid_label_spec:
  "(is_valid_label s \<longleftrightarrow>
      s \<noteq> [] \<and>
      list_all (\<lambda>c. c \<in> set (str ''ABCDEFGHIJKLMNOPQRSTUVWXYZabcdefghijklmnopqrstuvwxyz_'')) s) \<and>
   \<not> is_valid_label [] \<and>
   ((\<exists>c. c \<in> set s \<and>
         (c \<in> set (str ''0123456789'') \<or> is_space c \<or>
          c \<notin> set (str ''ABCDEFGHIJKLMNOPQRSTUVWXYZabcdefghijklmnopqrstuvwxyz_''))) \<longrightarrow>
    \<not> is_valid_label s)"
proof -
  have a: "is_label_char = (\<lambda>c. c \<in> set (str ''ABCDEFGHIJKLMNOPQRSTUVWXYZabcdefghijklmnopqrstuvwxyz_''))"
    by (rule ext) (rule is_label_char_alphabet)
  have d: "c \<in> set (str ''0123456789'') \<Longrightarrow> \<not> is_label_char c" for c
    by (auto simp: str_def is_label_char_def)
  have 1: "is_valid_label s \<longleftrightarrow>
      s \<noteq> [] \<and>
      list_all (\<lambda>c. c \<in> set (str ''ABCDEFGHIJKLMNOPQRSTUVWXYZabcdefghijklmnopqrstuvwxyz_'')) s"
    using is_valid_label_iff [of s] by (simp only: a)
  have 2: "\<not> is_valid_label []"
    by (simp add: is_valid_label_iff)
  have 3: "\<not> is_valid_label s" if "c \<in> set s"
    and "c \<in> set (str ''0123456789'') \<or> is_space c \<or>
         c \<notin> set (str ''ABCDEFGHIJKLMNOPQRSTUVWXYZabcdefghijklmnopqrstuvwxyz_'')" for c
  proof -
    from that(2) have "\<not> is_label_char c"
      using d class_disjoint(1) is_label_char_alphabet by blast
    with that(1) show ?thesis
      by (auto simp: is_valid_label_iff list_all_iff)
  qed
  from 1 2 3 show ?thesis by blast
qed

theorem is_valid_label_spec_witness:
  "is_valid_label (str ''new_Col'') \<and> \<not> is_valid_label (str ''c1'') \<and>
   \<not> is_valid_label (str ''a b'') \<and> \<not> is_valid_label (str ''a-b'')"
proof -
  have "is_valid_label (str ''new_Col'')"
    using is_valid_label_spec [of "str ''new_Col''"] by (simp add: str_def)
  moreover have "\<not> is_valid_label (str ''c1'')"
    using is_valid_label_spec [of "str ''c1''"] by (simp add: str_def)
  moreover have "\<not> is_valid_label (str ''a b'')"
    using is_valid_label_spec [of "str ''a b''"] by (simp add: str_def is_space_def)
  moreover have "\<not> is_valid_label (str ''a-b'')"
    using is_valid_label_spec [of "str ''a-b''"] by (simp add: str_def)
  ultimately show ?thesis by simp
qed

text \<open>
  C3: \<open>parse_role\<close> returns the triple of the left label, the operator and the right
  label exactly when the whole string is the left label, the operator and the right
  label, with optional white space at both ends and around the operator, each label one
  or more ASCII letters or underscores, the operator one of \<open>+ - * /\<close>. Every other
  string gives \<open>None\<close>; the function is total, so it never raises. The strings of the
  specification come out as it says.
\<close>

theorem parse_role_spec:
  "(parse_role s = Some [l, op, r] \<longleftrightarrow>
      (\<exists>w1 w2 w3 w4.
          s = w1 @ l @ w2 @ op @ w3 @ r @ w4 \<and>
          list_all is_space w1 \<and> list_all is_space w2 \<and>
          list_all is_space w3 \<and> list_all is_space w4 \<and>
          l \<noteq> [] \<and> list_all is_label_char l \<and>
          op \<in> {str ''+'', str ''-'', str ''*'', str ''/''} \<and>
          r \<noteq> [] \<and> list_all is_label_char r)) \<and>
   (parse_role s = None \<or> (\<exists>l op r. parse_role s = Some [l, op, r])) \<and>
   parse_role (str ''  a + b  '') = Some [str ''a'', str ''+'', str ''b''] \<and>
   parse_role (str ''a + b + c'') = None \<and>
   parse_role (str ''a+'') = None \<and>
   parse_role (str ''3+b'') = None \<and>
   parse_role (str []) = None"
proof -
  have 1: "parse_role s = Some [l, op, r] \<longleftrightarrow>
      (\<exists>w1 w2 w3 w4.
          s = w1 @ l @ w2 @ op @ w3 @ r @ w4 \<and>
          list_all is_space w1 \<and> list_all is_space w2 \<and>
          list_all is_space w3 \<and> list_all is_space w4 \<and>
          l \<noteq> [] \<and> list_all is_label_char l \<and>
          op \<in> {str ''+'', str ''-'', str ''*'', str ''/''} \<and>
          r \<noteq> [] \<and> list_all is_label_char r)"
    (is "?L \<longleftrightarrow> ?R")
  proof
    assume ?L
    from parse_role_SomeD [OF this] obtain w1 w2 c w3 w4 where
      "s = w1 @ l @ w2 @ [c] @ w3 @ r @ w4" "list_all is_space w1" "list_all is_space w2"
      "list_all is_space w3" "list_all is_space w4" "l \<noteq> []" "list_all is_label_char l"
      "is_oper_char c" "r \<noteq> []" "list_all is_label_char r" "op = [c]"
      by auto
    moreover from this have "op \<in> {str ''+'', str ''-'', str ''*'', str ''/''}"
      using oper_strings [of op] by blast
    ultimately show ?R by blast
  next
    assume ?R
    then obtain w1 w2 w3 w4 where h:
      "s = w1 @ l @ w2 @ op @ w3 @ r @ w4" "list_all is_space w1" "list_all is_space w2"
      "list_all is_space w3" "list_all is_space w4" "l \<noteq> []" "list_all is_label_char l"
      "op \<in> {str ''+'', str ''-'', str ''*'', str ''/''}" "r \<noteq> []" "list_all is_label_char r"
      by blast
    from h(8) obtain c where c: "op = [c]" "is_oper_char c"
      using oper_strings [of op] by blast
    show ?L
      unfolding h(1) c(1)
      by (rule parse_role_SomeI) (fact h c)+
  qed
  have 2: "parse_role s = None \<or> (\<exists>l op r. parse_role s = Some [l, op, r])"
  proof (cases "parse_role s")
    case None
    then show ?thesis by simp
  next
    case (Some gs)
    from parse_role_SomeD [OF this] Some show ?thesis by blast
  qed
  have 3: "parse_role (str ''  a + b  '') = Some [str ''a'', str ''+'', str ''b'']"
    by (simp add: matcher_eval)
  have 4: "parse_role (str ''a + b + c'') = None"
    by (simp add: matcher_eval)
  have 5: "parse_role (str ''a+'') = None"
    by (simp add: matcher_eval)
  have 6: "parse_role (str ''3+b'') = None"
    by (simp add: matcher_eval)
  have 7: "parse_role (str []) = None"
    by (simp add: matcher_eval)
  from 1 2 3 4 5 6 7 show ?thesis by (intro conjI)
qed

section \<open>Columns, tables and objects\<close>



lemma operator_keys:
  "str ''+'' \<noteq> str ''-''" "str ''+'' \<noteq> str ''*''" "str ''+'' \<noteq> str ''/''"
  "str ''-'' \<noteq> str ''*''" "str ''-'' \<noteq> str ''/''" "str ''*'' \<noteq> str ''/''"
  by (simp_all add: str_def)

lemma operations_cases:
  "map_of (operations ar) op = Some func \<longleftrightarrow>
     op = str ''+'' \<and> func = series_op (py_add ar) \<or>
     op = str ''-'' \<and> func = series_op (py_sub ar) \<or>
     op = str ''*'' \<and> func = series_op (py_mul ar) \<or>
     op = str ''/'' \<and> func = series_op (py_truediv ar)"
  using operator_keys by (auto simp: operations_def)

lemma operations_defined:
  "op \<in> {str ''+'', str ''-'', str ''*'', str ''/''} \<Longrightarrow> \<exists>func. map_of (operations ar) op = Some func"
  by (auto simp: operations_cases)

lemma getitem_Inr: "getitem t col = Inr vs \<longleftrightarrow> map_of t col = Some vs"
  by (simp add: getitem_def split: option.splits)

lemma getitem_columns: "getitem t col = Inr vs \<Longrightarrow> col \<in> set (columns t)"
  by (auto simp: getitem_Inr columns_def dest: map_of_SomeD intro: rev_image_eqI)

lemma columns_getitem: "col \<in> set (columns t) \<Longrightarrow> \<exists>vs. getitem t col = Inr vs"
  by (cases "map_of t col") (auto simp: getitem_Inr columns_def map_of_eq_None_iff)






lemma reject_eq:
  "reject m w = (Inr (length (heap w)), w\<lparr>heap := heap w @ [[]], log := log w @ [m]\<rparr>)"
  by (simp add: reject_def DataFrame_def logger_warning_def)


lemma returned_reject: "returned (reject m w) = Some []"
  by (simp add: reject_eq returned_def)

lemma check_operands_valid:
  "is_valid_label l \<Longrightarrow> is_valid_label r \<Longrightarrow>
   check_operands t [l, r] =
     (if l \<notin> set (columns t) then Some (ColumnNotFound l)
      else if r \<notin> set (columns t) then Some (ColumnNotFound r) else None)"
  by simp

lemma parse_role_valid:
  assumes "parse_role role = Some gs"
  shows "\<exists>l op r. gs = [l, op, r] \<and> is_valid_label l \<and> is_valid_label r \<and>
           op \<in> {str ''+'', str ''-'', str ''*'', str ''/''}"
proof -
  from parse_role_SomeD [OF assms] obtain l c r where
    "gs = [l, [c], r]" "l \<noteq> []" "list_all is_label_char l" "is_oper_char c"
    "r \<noteq> []" "list_all is_label_char r"
    by blast
  then show ?thesis
    using oper_strings [of "[c]"] by (auto simp: is_valid_label_iff)
qed

section \<open>The paths through \<open>add_virtual_column\<close>\<close>

lemma avc_invalid_name:
  "\<not> is_valid_label new_column \<Longrightarrow>
   add_virtual_column ar df role new_column w = reject (InvalidNewColumnName new_column) w"
  by (simp add: add_virtual_column_def)

lemma avc_no_parse:
  "is_valid_label new_column \<Longrightarrow> parse_role role = None \<Longrightarrow>
   add_virtual_column ar df role new_column w = reject (InvalidExpressionFormat role) w"
  by (simp add: add_virtual_column_def)

lemma avc_parsed:
  assumes "is_valid_label new_column" and "parse_role role = Some [l, op, r]"
  shows "add_virtual_column ar df role new_column w =
     (case check_operands (heap w ! df) [l, r] of
        Some m \<Rightarrow> reject m w
      | None \<Rightarrow>
          (case map_of (operations ar) op of
             None \<Rightarrow> reject (UnsupportedOperator op) w
           | Some func \<Rightarrow>
               (case (case getitem (heap w ! df) l of
                        Inl e \<Rightarrow> Inl e
                      | Inr a \<Rightarrow>
                          (case getitem (heap w ! df) r of Inl e \<Rightarrow> Inl e | Inr b \<Rightarrow> func a b)) of
                  Inl e \<Rightarrow> reject (CalculationError l op r e) w
                | Inr result \<Rightarrow>
                    (Inr (length (heap w)),
                     w\<lparr>heap := heap w @ [setitem (heap w ! df) new_column result]\<rparr>))))"
  using assms
  by (simp add: add_virtual_column_def copy_def DataFrame_def setitem_at_def
      split: option.splits sum.splits)

lemma avc_missing:
  assumes "is_valid_label new_column" and "parse_role role = Some [l, op, r]"
    and "l \<notin> set (columns (heap w ! df)) \<or> r \<notin> set (columns (heap w ! df))"
  shows "\<exists>col. add_virtual_column ar df role new_column w = reject (ColumnNotFound col) w"
proof -
  from parse_role_valid [OF assms(2)] have v: "is_valid_label l" "is_valid_label r" by auto
  show ?thesis
    using assms(3) v by (auto simp: avc_parsed [OF assms(1,2)])
qed

lemma avc_evaluated:
  assumes "is_valid_label new_column" and "parse_role role = Some [l, op, r]"
    and "getitem (heap w ! df) l = Inr a" and "getitem (heap w ! df) r = Inr b"
    and "map_of (operations ar) op = Some func"
  shows "add_virtual_column ar df role new_column w =
     (case func a b of
        Inl e \<Rightarrow> reject (CalculationError l op r e) w
      | Inr result \<Rightarrow>
          (Inr (length (heap w)),
           w\<lparr>heap := heap w @ [setitem (heap w ! df) new_column result]\<rparr>))"
proof -
  from parse_role_valid [OF assms(2)] have v: "is_valid_label l" "is_valid_label r" by auto
  have c: "l \<in> set (columns (heap w ! df))" "r \<in> set (columns (heap w ! df))"
    using assms(3,4) by (auto dest: getitem_columns)
  show ?thesis
    by (simp add: avc_parsed [OF assms(1,2)] check_operands_valid [OF v] c assms(3,4,5)
        del: check_operands.simps)
qed

text \<open>Every call ends in one of two ways: a warning and a new empty table, or a new
  table that is the input with the computed column set, and no warning.\<close>

lemma avc_outcome:
  "(\<exists>m. (\<forall>x. m \<noteq> UnsupportedOperator x) \<and> (\<forall>x. m \<noteq> InvalidOperandLabel x) \<and>
        add_virtual_column ar df role new_column w = reject m w) \<or>
   (\<exists>result. add_virtual_column ar df role new_column w =
      (Inr (length (heap w)),
       w\<lparr>heap := heap w @ [setitem (heap w ! df) new_column result]\<rparr>))"
proof (cases "is_valid_label new_column")
  case False
  then show ?thesis by (auto simp: avc_invalid_name)
next
  case valid: True
  show ?thesis
  proof (cases "parse_role role")
    case None
    with valid show ?thesis by (auto simp: avc_no_parse)
  next
    case (Some gs)
    from parse_role_valid [OF Some] obtain l op r where
      gs: "gs = [l, op, r]" and op: "op \<in> {str ''+'', str ''-'', str ''*'', str ''/''}"
      by blast
    from Some gs have p: "parse_role role = Some [l, op, r]" by simp
    show ?thesis
    proof (cases "l \<in> set (columns (heap w ! df)) \<and> r \<in> set (columns (heap w ! df))")
      case False
      with avc_missing [OF valid p, of w df ar] show ?thesis by auto
    next
      case True
      then obtain a b where ab: "getitem (heap w ! df) l = Inr a" "getitem (heap w ! df) r = Inr b"
        using columns_getitem by blast
      from operations_defined [OF op] obtain func where f: "map_of (operations ar) op = Some func"
        by blast
      show ?thesis
        by (cases "func a b") (auto simp: avc_evaluated [OF valid p ab f])
    qed
  qed
qed

lemmas example_eval =
  add_virtual_column_def matcher_eval operations_def series_op_def getitem_def copy_def
  DataFrame_def setitem_at_def reject_def logger_warning_def exact_arith_def returned_def
  columns_def wf_table_def is_table_def example_table_def example_world_def

section \<open>The evaluator\<close>



text \<open>
  C2: when the new name is not a valid label, or the expression does not parse, or a
  parsed operand label is invalid or names no column of the table, the call logs one
  warning and returns a new empty table, and does nothing else. A new name \<open>c1\<close>
  gives the empty table with a valid expression, and so does \<open>a + z\<close> on a table
  with no column \<open>z\<close>.
\<close>

theorem add_virtual_column_rejects:
  assumes "\<not> is_valid_label new_column \<or> parse_role role = None \<or>
     (\<exists>l op r. parse_role role = Some [l, op, r] \<and>
        (\<not> is_valid_label l \<or> l \<notin> set (columns (heap w ! df)) \<or>
         \<not> is_valid_label r \<or> r \<notin> set (columns (heap w ! df))))"
  shows "(\<exists>m. add_virtual_column ar df role new_column w =
            (Inr (length (heap w)), w\<lparr>heap := heap w @ [[]], log := log w @ [m]\<rparr>)) \<and>
         returned (add_virtual_column ar df role new_column w) = Some [] \<and>
         returned (add_virtual_column exact_arith 0 (str ''a + b'') (str ''c1'') example_world) =
           Some [] \<and>
         returned (add_virtual_column exact_arith 0 (str ''a + z'') (str ''c'') example_world) =
           Some []"
proof -
  have r: "\<exists>m. add_virtual_column ar df role new_column w = reject m w"
  proof (cases "is_valid_label new_column")
    case False
    then show ?thesis by (auto simp: avc_invalid_name)
  next
    case valid: True
    show ?thesis
    proof (cases "parse_role role")
      case None
      with valid show ?thesis by (auto simp: avc_no_parse)
    next
      case (Some gs)
      with assms valid obtain l op r where p: "parse_role role = Some [l, op, r]"
        and c: "\<not> is_valid_label l \<or> l \<notin> set (columns (heap w ! df)) \<or>
                \<not> is_valid_label r \<or> r \<notin> set (columns (heap w ! df))"
        by auto
      from parse_role_valid [OF p] have "is_valid_label l" "is_valid_label r" by auto
      with c have "l \<notin> set (columns (heap w ! df)) \<or> r \<notin> set (columns (heap w ! df))"
        by blast
      from avc_missing [OF valid p this] show ?thesis by blast
    qed
  qed
  then obtain m where m: "add_virtual_column ar df role new_column w = reject m w" ..
  have 1: "\<exists>m. add_virtual_column ar df role new_column w =
            (Inr (length (heap w)), w\<lparr>heap := heap w @ [[]], log := log w @ [m]\<rparr>)"
    using m reject_eq [of m w] by auto
  have 2: "returned (add_virtual_column ar df role new_column w) = Some []"
    by (simp only: m returned_reject)
  have 3: "returned (add_virtual_column exact_arith 0 (str ''a + b'') (str ''c1'') example_world) =
      Some []"
    by (simp add: example_eval)
  have 4: "returned (add_virtual_column exact_arith 0 (str ''a + z'') (str ''c'') example_world) =
      Some []"
    by (simp add: example_eval)
  from 1 2 3 4 show ?thesis by (intro conjI)
qed

theorem add_virtual_column_rejects_witness:
  "\<not> is_valid_label (str ''c1'') \<and>
   parse_role (str ''a + z'') = Some [str ''a'', str ''+'', str ''z''] \<and>
   str ''z'' \<notin> set (columns (heap example_world ! 0)) \<and>
   add_virtual_column exact_arith 0 (str ''a + b'') (str ''c1'') example_world =
     (Inr 1, \<lparr>heap = [example_table, []], log = [InvalidNewColumnName (str ''c1'')]\<rparr>) \<and>
   add_virtual_column exact_arith 0 (str ''a + z'') (str ''c'') example_world =
     (Inr 1, \<lparr>heap = [example_table, []], log = [ColumnNotFound (str ''z'')]\<rparr>)"
proof -
  have h1: "\<not> is_valid_label (str ''c1'')"
    by (simp add: matcher_eval)
  have h2: "parse_role (str ''a + z'') = Some [str ''a'', str ''+'', str ''z'']"
    by (simp add: matcher_eval)
  have h3: "str ''z'' \<notin> set (columns (heap example_world ! 0))"
    by (simp add: example_eval)
  have "\<exists>m. add_virtual_column exact_arith 0 (str ''a + b'') (str ''c1'') example_world =
      (Inr (length (heap example_world)),
       example_world\<lparr>heap := heap example_world @ [[]], log := log example_world @ [m]\<rparr>)"
    using add_virtual_column_rejects
      [where new_column = "str ''c1''" and role = "str ''a + b''" and w = example_world
         and df = 0 and ar = exact_arith] h1
    by blast
  then have 1: "add_virtual_column exact_arith 0 (str ''a + b'') (str ''c1'') example_world =
     (Inr 1, \<lparr>heap = [example_table, []], log = [InvalidNewColumnName (str ''c1'')]\<rparr>)"
    by (simp add: example_eval)
  have "\<exists>m. add_virtual_column exact_arith 0 (str ''a + z'') (str ''c'') example_world =
      (Inr (length (heap example_world)),
       example_world\<lparr>heap := heap example_world @ [[]], log := log example_world @ [m]\<rparr>)"
    using add_virtual_column_rejects
      [where new_column = "str ''c''" and role = "str ''a + z''" and w = example_world
         and df = 0 and ar = exact_arith] h2 h3
    by blast
  then have 2: "add_virtual_column exact_arith 0 (str ''a + z'') (str ''c'') example_world =
     (Inr 1, \<lparr>heap = [example_table, []], log = [ColumnNotFound (str ''z'')]\<rparr>)"
    by (simp add: example_eval)
  from h1 h2 h3 1 2 show ?thesis by (intro conjI)
qed



text \<open>
  C6: a call leaves the table it was given as it was, and every other table there is:
  after the call, on success and on failure, the object \<open>df\<close> refers to has the
  columns, in the order and with the values, it had before. The reference returned is
  to a new object.
\<close>

theorem add_virtual_column_preserves_input:
  assumes "df < length (heap w)"
  shows "heap (snd (add_virtual_column ar df role new_column w)) ! df = heap w ! df \<and>
         (\<forall>other<length (heap w).
            heap (snd (add_virtual_column ar df role new_column w)) ! other = heap w ! other) \<and>
         fst (add_virtual_column ar df role new_column w) = Inr (length (heap w)) \<and>
         fst (add_virtual_column ar df role new_column w) \<noteq> Inr df"
proof -
  let ?out = "add_virtual_column ar df role new_column w"
  have "(\<exists>m. ?out = reject m w) \<or>
      (\<exists>result. ?out = (Inr (length (heap w)),
         w\<lparr>heap := heap w @ [setitem (heap w ! df) new_column result]\<rparr>))"
    using avc_outcome [of ar df role new_column w] by blast
  then obtain w' t where "?out = (Inr (length (heap w)), w')" "heap w' = heap w @ [t]"
    by (auto simp: reject_eq)
  then show ?thesis
    using assms by (simp add: nth_append)
qed

theorem add_virtual_column_preserves_input_witness:
  "(0 :: nat) < length (heap example_world) \<and>
   heap (snd (add_virtual_column exact_arith 0 (str ''a + b'') (str ''a'') example_world)) ! 0 =
     example_table \<and>
   heap (snd (add_virtual_column exact_arith 0 (str ''a + b'') (str ''a'') example_world)) ! 1 =
     [(str ''a'', [5, 7, 9]), (str ''b'', [4, 5, 6])] \<and>
   heap (snd (add_virtual_column exact_arith 0 (str ''a +'') (str ''a'') example_world)) ! 0 =
     example_table"
proof -
  have h: "(0 :: nat) < length (heap example_world)"
    by (simp add: example_world_def)
  have 1: "heap (snd (add_virtual_column exact_arith 0 (str ''a + b'') (str ''a'') example_world)) ! 0
      = example_table"
    using add_virtual_column_preserves_input [OF h, of exact_arith "str ''a + b''" "str ''a''"]
    by (simp add: example_world_def)
  have 2: "heap (snd (add_virtual_column exact_arith 0 (str ''a + b'') (str ''a'') example_world)) ! 1
      = [(str ''a'', [5, 7, 9]), (str ''b'', [4, 5, 6])]"
    by (simp add: example_eval)
  have 3: "heap (snd (add_virtual_column exact_arith 0 (str ''a +'') (str ''a'') example_world)) ! 0
      = example_table"
    using add_virtual_column_preserves_input [OF h, of exact_arith "str ''a +''" "str ''a''"]
    by (simp add: example_world_def)
  from h 1 2 3 show ?thesis by (intro conjI)
qed






text \<open>
  C8: \<open>/\<close> is the true division of the cells, not the floor division: for
  \<open>{a:[1,2,3], b:[4,5,6]}\<close>, \<open>a / b\<close> and \<open>d\<close> the new column is
  \<open>[0.25, 0.4, 0.5]\<close>, where the floors of the quotients are \<open>[0, 0, 0]\<close>. The
  numbers are exact here: what binary floating point does to \<open>0.4\<close> is outside the
  model.
\<close>

theorem truediv_is_real_division:
  "map_of (operations ar) (str ''/'') = Some (series_op (py_truediv ar)) \<and>
   returned (add_virtual_column exact_arith 0 (str ''a / b'') (str ''d'') example_world) =
     Some [(str ''a'', [1, 2, 3]), (str ''b'', [4, 5, 6]), (str ''d'', [0.25, 0.4, 0.5])] \<and>
   map2 (\<lambda>x y. of_int \<lfloor>x / y\<rfloor>) [1, 2, 3 :: rat] [4, 5, 6] = [0, 0, 0 :: rat]"
proof -
  have 1: "map_of (operations ar) (str ''/'') = Some (series_op (py_truediv ar))"
    by (simp add: operations_cases)
  have 2: "returned (add_virtual_column exact_arith 0 (str ''a / b'') (str ''d'') example_world) =
      Some [(str ''a'', [1, 2, 3]), (str ''b'', [4, 5, 6]), (str ''d'', [0.25, 0.4, 0.5])]"
    by (simp add: example_eval)
  have 3: "map2 (\<lambda>x y. of_int \<lfloor>x / y\<rfloor>) [1, 2, 3 :: rat] [4, 5, 6] = [0, 0, 0 :: rat]"
    by (simp add: floor_eq_iff)
  from 1 2 3 show ?thesis by (intro conjI)
qed

text \<open>
  C9: what \<open>parse_role\<close> returns is a triple whose operator is one of \<open>+ - * /\<close>
  and whose two labels satisfy \<open>is_valid_label\<close>. So \<open>operations.get\<close> finds the
  operator and the loop over the operands never finds an invalid label: no call of
  \<open>add_virtual_column\<close> with that expression logs the warning of an unsupported
  operator or the one of an invalid operand label.
\<close>

theorem parsed_expression_is_supported:
  assumes "parse_role role = Some gs"
  shows "\<exists>l op r. gs = [l, op, r] \<and>
           op \<in> {str ''+'', str ''-'', str ''*'', str ''/''} \<and>
           is_valid_label l \<and> is_valid_label r \<and>
           (\<exists>func. map_of (operations ar) op = Some func) \<and>
           (\<forall>x. check_operands (heap w ! df) [l, r] \<noteq> Some (InvalidOperandLabel x)) \<and>
           (\<forall>x. log (snd (add_virtual_column ar df role new_column w)) \<noteq>
                   log w @ [UnsupportedOperator x] \<and>
                log (snd (add_virtual_column ar df role new_column w)) \<noteq>
                   log w @ [InvalidOperandLabel x])"
proof -
  let ?out = "add_virtual_column ar df role new_column w"
  from parse_role_valid [OF assms] obtain l op r where
    gs: "gs = [l, op, r]" and op: "op \<in> {str ''+'', str ''-'', str ''*'', str ''/''}"
    and v: "is_valid_label l" "is_valid_label r"
    by blast
  have 1: "\<exists>func. map_of (operations ar) op = Some func"
    using op by (rule operations_defined)
  have 2: "check_operands (heap w ! df) [l, r] \<noteq> Some (InvalidOperandLabel x)" for x
    by (simp add: check_operands_valid [OF v] del: check_operands.simps)
  have 3: "log (snd ?out) \<noteq> log w @ [UnsupportedOperator x] \<and>
      log (snd ?out) \<noteq> log w @ [InvalidOperandLabel x]" for x
    using avc_outcome [of ar df role new_column w] by (auto simp: reject_eq)
  from gs op v 1 2 3 show ?thesis by blast
qed

theorem parsed_expression_is_supported_witness:
  "parse_role (str ''a * zz'') = Some [str ''a'', str ''*'', str ''zz''] \<and>
   is_valid_label (str ''a'') \<and> is_valid_label (str ''zz'') \<and>
   (\<exists>func. map_of (operations exact_arith) (str ''*'') = Some func) \<and>
   log (snd (add_virtual_column exact_arith 0 (str ''a * zz'') (str ''c'') example_world)) =
     [ColumnNotFound (str ''zz'')]"
proof -
  have p: "parse_role (str ''a * zz'') = Some [str ''a'', str ''*'', str ''zz'']"
    by (simp add: matcher_eval)
  from parsed_expression_is_supported [OF p, of exact_arith example_world 0 "str ''c''"]
  have "is_valid_label (str ''a'') \<and> is_valid_label (str ''zz'') \<and>
      (\<exists>func. map_of (operations exact_arith) (str ''*'') = Some func)"
    by auto
  moreover
  have "log (snd (add_virtual_column exact_arith 0 (str ''a * zz'') (str ''c'') example_world)) =
      [ColumnNotFound (str ''zz'')]"
    by (simp add: example_eval)
  ultimately show ?thesis using p by blast
qed



end
